theory Spec2Isabelle
  imports Main "HOL-Library.Word"
begin

section \<open>The world outside the program\<close>

text \<open>
  The sidecar talks to four things: the clock, the operating system's termination
  signals, the metadata endpoints and Route 53. All of them are inputs of the model.

  Time is a natural number of nanoseconds (the unit of Go's \<open>time.Duration\<close>). The
  clock advances only where the source waits: in \<open>time.Sleep\<close>, in
  \<open>SleepWithContext\<close> and on \<open><-ctx.Done()\<close>. Calls to Route 53 and to the logger
  take no time on the model clock.

  A \<open>context.Context\<close> is the instant at which its \<open>Done\<close> channel is closed, or
  \<open>None\<close> when that never happens. \<open>context.Background()\<close> is never cancelled.
\<close>

type_synonym Context = "nat option"

definition Background :: Context where
  "Background = None"

text \<open>
  Route 53 is a scripted client, as \<open>mockRoute53\<close> of the tests is: the replies of
  \<open>ChangeResourceRecordSets\<close> and of \<open>GetChange\<close> are two lists, consumed from
  the head, one reply per call. \<open>Inl\<close> is the error of the call; \<open>Inr\<close> carries
  \<open>ChangeInfo.Id\<close> and \<open>ChangeInfo.Status\<close> respectively. A call on an empty
  script has no reply in the model: the run does not return (\<open>None\<close>).
\<close>

datatype ChangeAction = ChangeActionCreate | ChangeActionDelete | ChangeActionUpsert

datatype RRType = RRTypeSoa | RRTypeA | RRTypeTxt | RRTypeNs | RRTypeCname | RRTypeMx
  | RRTypePtr | RRTypeSrv | RRTypeAaaa

record ResourceRecordSet =
  Name :: string
  ResourceRecords :: "string list"
  TTL :: "64 word"
  Type :: RRType
  Weight :: "64 word"
  SetIdentifier :: string

record ChangeResourceRecordSetsInput =
  Action :: ChangeAction
  RecordSet :: ResourceRecordSet
  Comment :: "string option"
  HostedZoneId :: string

datatype event =
    Log string
  | CallChangeResourceRecordSets Context ChangeResourceRecordSetsInput
  | CallGetChange Context string

record network =
  IPv4Addresses :: "string list"

record ecsMetadata =
  DesiredStatus :: string
  Networks :: "network list"

record world =
  now :: nat
  signal_at :: "nat option"
  timer_first :: bool
  awsConfig :: "string option"
  imdsPublicIpv4 :: "string + (string + string)"
  ecsEndpoint :: "string + ecsMetadata"
  changes :: "(string + string) list"
  statuses :: "(string + string) list"
  trace :: "(nat \<times> event) list"

text \<open>
  \<open>signal_at\<close> is the arrival of the first SIGTERM or SIGINT. \<open>timer_first\<close> is the
  scheduler's choice in a \<open>select\<close> whose two cases are ready at the same instant.
  \<open>awsConfig\<close> is the error of \<open>config.LoadDefaultConfig\<close>, if any.
  \<open>imdsPublicIpv4\<close> is the reply of the instance metadata service: \<open>Inl\<close> the error
  of \<open>GetMetadata\<close>, \<open>Inr (Inl e)\<close> the error of \<open>io.ReadAll\<close>, \<open>Inr (Inr s)\<close>
  the body. \<open>ecsEndpoint\<close> is what \<open>getEcsMetadata\<close> returns: the error of the HTTP
  request or of the JSON decoder, or the decoded document. \<open>trace\<close> records, with
  its instant, every log line (by its format string) and every call to Route 53 (with
  the context and the arguments it was given).
\<close>

datatype exit = Fatal string | Panic string

text \<open>
  \<open>log.Fatal\<close> and \<open>log.Fatalf\<close> end the process (\<open>os.Exit(1)\<close>), and so does a
  run-time panic. A function of the program either returns or ends the process.
\<close>

datatype 'a res = Returns 'a world | Exits exit world

fun world_of :: "'a res \<Rightarrow> world" where
  "world_of (Returns x w) = w"
| "world_of (Exits e w) = w"

fun exited :: "'a res \<Rightarrow> bool" where
  "exited (Returns x w) = False"
| "exited (Exits e w) = True"

definition emit :: "event \<Rightarrow> world \<Rightarrow> world" where
  "emit e w = w\<lparr>trace := trace w @ [(now w, e)]\<rparr>"

definition Second :: int where
  "Second = 1000000000"

definition time_Sleep :: "int \<Rightarrow> world \<Rightarrow> world" where
  "time_Sleep d w = (if d \<le> 0 then w else w\<lparr>now := now w + nat d\<rparr>)"

text \<open>
  \<open>time.Duration(n) * time.Second\<close> for a Go \<open>int\<close> (64 bits): the product is an
  \<open>int64\<close> and wraps around.
\<close>

definition seconds :: "64 word \<Rightarrow> int" where
  "seconds n = sint (n * 1000000000)"

text \<open>
  \<open>SleepWithContext\<close>: the timer fires \<open>d\<close> after the call (at once when \<open>d\<close> is
  not positive); the context is ready from its cancellation on. \<open>select\<close> takes the
  case that is ready first and, when both are ready together, either.
\<close>

definition SleepWithContext :: "Context \<Rightarrow> int \<Rightarrow> world \<Rightarrow> string option \<times> world" where
  "SleepWithContext ctx d w =
     (let fire = now w + nat d in
      case ctx of
        None \<Rightarrow> (None, w\<lparr>now := fire\<rparr>)
      | Some c \<Rightarrow>
          if max (now w) c < fire \<or> (max (now w) c = fire \<and> \<not> timer_first w)
          then (Some ''context canceled'', w\<lparr>now := max (now w) c\<rparr>)
          else (None, w\<lparr>now := fire\<rparr>))"

definition r53_ChangeResourceRecordSets ::
    "Context \<Rightarrow> ChangeResourceRecordSetsInput \<Rightarrow> world \<Rightarrow> ((string + string) \<times> world) option" where
  "r53_ChangeResourceRecordSets ctx input w =
     (case changes w of
        [] \<Rightarrow> None
      | r # rs \<Rightarrow> Some (r, (emit (CallChangeResourceRecordSets ctx input) w)\<lparr>changes := rs\<rparr>))"

definition r53_GetChange :: "Context \<Rightarrow> string \<Rightarrow> world \<Rightarrow> ((string + string) \<times> world) option" where
  "r53_GetChange ctx cid w =
     (case statuses w of
        [] \<Rightarrow> None
      | r # rs \<Rightarrow> Some (r, (emit (CallGetChange ctx cid) w)\<lparr>statuses := rs\<rparr>))"

section \<open>waitForSync\<close>

text \<open>
  The loop of \<open>waitForSync\<close>, with the local \<open>failures\<close> as an argument. The result
  carries the last value of \<open>failures\<close> beside the outcome, so that claims about the
  counter can be stated; \<open>waitForSync\<close> itself drops it.
\<close>

function waitForSync_loop :: "Context \<Rightarrow> string \<Rightarrow> nat \<Rightarrow> world \<Rightarrow> (nat \<times> unit res) option" where
  "waitForSync_loop ctx cid failures w =
     (case SleepWithContext ctx (5 * Second) w of
        (Some err, w1) \<Rightarrow>
          Some (failures,
            Returns () (emit (Log ''Context cancelled, stop waiting for Route53 ChangeSet to propogate'') w1))
      | (None, w1) \<Rightarrow>
          (case r53_GetChange ctx cid w1 of
             None \<Rightarrow> None
           | Some (Inl err, w2) \<Rightarrow>
               if failures + 1 > 3
               then Some (failures + 1,
                 Exits (Fatal ''Failed the maximum times getting changeset, exiting'')
                   (emit (Log ''Failed getting ChangeSet result: %v'') w2))
               else waitForSync_loop ctx cid (failures + 1)
                      (emit (Log ''Failed getting ChangeSet result: %v'') w2)
           | Some (Inr status, w2) \<Rightarrow>
               if status = ''INSYNC''
               then Some (failures, Returns () (emit (Log ''Route53 Change Completed'') w2))
               else waitForSync_loop ctx cid failures
                      (emit (Log ''Route53 Change not yet propogated (ChangeInfo.Status = %s)...'') w2)))"
  by pat_completeness auto
termination
  by (relation "measure (\<lambda>(ctx, cid, failures, w). length (statuses w))")
     (auto simp: SleepWithContext_def r53_GetChange_def emit_def Let_def
           split: option.splits if_splits list.splits)

definition waitForSync :: "Context \<Rightarrow> string \<Rightarrow> world \<Rightarrow> unit res option" where
  "waitForSync ctx cid w = map_option snd (waitForSync_loop ctx cid 0 w)"

section \<open>The program's globals\<close>

text \<open>
  The package-level variables that \<open>flag.Parse\<close> fills in. The Go \<open>int\<close>s are 64 bits
  wide. \<open>defaults\<close> are the values the flags have when they are not given.
\<close>

record globals =
  dns :: string
  hostedZone :: string
  dnsTTL :: "64 word"
  ipAddress :: string
  setupDelay :: "64 word"
  register :: bool
  unRegister :: bool

definition defaults :: globals where
  "defaults = \<lparr>dns = ''my.example.com'', hostedZone = ''Z2AAAABCDEFGT4'', dnsTTL = 10,
     ipAddress = ''public-ipv4'', setupDelay = 10, register = False, unRegister = False\<rparr>"

section \<open>configureFromFlags\<close>

text \<open>Go's \<open>xs[i]\<close> on a slice panics when \<open>i\<close> is out of range.\<close>

definition index :: "'a list \<Rightarrow> nat \<Rightarrow> 'a option" where
  "index xs i = (if i < length xs then Some (xs ! i) else None)"

definition getEcsMetadata :: "world \<Rightarrow> string + ecsMetadata" where
  "getEcsMetadata w = ecsEndpoint w"

text \<open>
  The argument is the globals as \<open>flag.Parse\<close> left them; the result is the globals
  with \<open>ipAddress\<close> resolved.
\<close>

definition configureFromFlags :: "globals \<Rightarrow> world \<Rightarrow> globals res" where
  "configureFromFlags g w =
     (case awsConfig w of
        Some err \<Rightarrow> Exits (Fatal ''Failed to initialize aws config: %v'') w
      | None \<Rightarrow>
          if ipAddress g = ''public-ipv4'' then
            (let w1 = emit (Log ''Fetching IP Address from EC2 public-ipv4'') w in
             case imdsPublicIpv4 w1 of
               Inl err \<Rightarrow>
                 Exits (Fatal (''Unable to retrieve the public IPv4 address from the EC2 metadata: %s''
                   @ [CHR 0x0A])) w1
             | Inr (Inl err) \<Rightarrow> Exits (Fatal ''Failed to fetch IPV4 public IP: %v'') w1
             | Inr (Inr publicIpv4) \<Rightarrow> Returns (g\<lparr>ipAddress := publicIpv4\<rparr>) w1)
          else if ipAddress g = ''ecs'' then
            (let w1 = emit (Log ''Fetching IP Address from ECS metadata'') w in
             case getEcsMetadata w1 of
               Inl err \<Rightarrow> Exits (Fatal ''Failed to fetch ECS metadata: %v'') w1
             | Inr metadata \<Rightarrow>
                 (case index (Networks metadata) 0 of
                    None \<Rightarrow> Exits (Panic ''runtime error: index out of range [0] with length 0'') w1
                  | Some net \<Rightarrow>
                      (case index (IPv4Addresses net) 0 of
                         None \<Rightarrow> Exits (Panic ''runtime error: index out of range [0] with length 0'') w1
                       | Some ip \<Rightarrow>
                           if DesiredStatus metadata = ''STOPPED''
                           then Exits (Fatal ''ECS container is being stopped, exiting'') w1
                           else Returns (g\<lparr>ipAddress := ip\<rparr>) w1)))
          else Returns g w)"

definition dumpConfig :: "globals \<Rightarrow> world \<Rightarrow> world" where
  "dumpConfig g w =
     emit (Log ''SETUPDELAY=%v'') (emit (Log ''IPADDRESS=%v'') (emit (Log ''HOSTEDZONE=%v'')
       (emit (Log ''DNSTTL=%v'') (emit (Log ''DNS=%v'') (emit (Log ''Version=%v'') w)))))"

section \<open>tearDownDNS and setupDNS\<close>

definition tearDownDNS_input :: "globals \<Rightarrow> ChangeResourceRecordSetsInput" where
  "tearDownDNS_input g =
     \<lparr>Action = ChangeActionDelete,
      RecordSet = \<lparr>Name = dns g, ResourceRecords = [ipAddress g], TTL = dnsTTL g,
        Type = RRTypeA, Weight = 100, SetIdentifier = ipAddress g\<rparr>,
      Comment = None,
      HostedZoneId = hostedZone g\<rparr>"

definition setupDNS_input :: "globals \<Rightarrow> ChangeResourceRecordSetsInput" where
  "setupDNS_input g =
     \<lparr>Action = ChangeActionUpsert,
      RecordSet = \<lparr>Name = dns g, ResourceRecords = [ipAddress g], TTL = dnsTTL g,
        Type = RRTypeA, Weight = 100, SetIdentifier = ipAddress g\<rparr>,
      Comment = Some ''route53-sidecar'',
      HostedZoneId = hostedZone g\<rparr>"

definition tearDownDNS :: "Context \<Rightarrow> globals \<Rightarrow> world \<Rightarrow> unit res option" where
  "tearDownDNS ctx g w =
     (case r53_ChangeResourceRecordSets ctx (tearDownDNS_input g)
             (emit (Log ''Tearing down Route 53 DNS Name A %s => %s'') w) of
        None \<Rightarrow> None
      | Some (Inl err, w1) \<Rightarrow> Some (Exits (Fatal ''Failed to delete DNS, exiting: %v'') w1)
      | Some (Inr changeSet, w1) \<Rightarrow>
          (case waitForSync ctx changeSet (emit (Log ''Request sent to Route 53...'') w1) of
             None \<Rightarrow> None
           | Some (Exits e w2) \<Rightarrow> Some (Exits e w2)
           | Some (Returns u w2) \<Rightarrow>
               Some (Returns ()
                 (emit (Log ''DNS Timeout expiry finished'')
                   (time_Sleep (seconds (dnsTTL g))
                     (emit (Log ''Waiting for DNS Timeout to expire (%d seconds)'') w2))))))"

definition setupDNS :: "Context \<Rightarrow> globals \<Rightarrow> world \<Rightarrow> unit res option" where
  "setupDNS ctx g w =
     (let w0 = emit (Log ''Setting up Route 53 DNS Name A %s => %s'') w;
          w1 = (if 0 <s setupDelay g
                then emit (Log ''Finished waiting'')
                       (time_Sleep (seconds (setupDelay g))
                         (emit (Log ''Waiting %d seconds before setting up DNS (SETUPDELAY)'') w0))
                else w0)
      in case r53_ChangeResourceRecordSets ctx (setupDNS_input g) w1 of
           None \<Rightarrow> None
         | Some (Inl err, w2) \<Rightarrow> Some (Returns () (emit (Log ''Failed to create DNS: %v'') w2))
         | Some (Inr changeSet, w2) \<Rightarrow>
             waitForSync ctx changeSet (emit (Log ''Request sent to Route 53...'') w2))"

section \<open>main\<close>

text \<open>
  \<open>signal.NotifyContext\<close> gives a context that is cancelled when the first SIGTERM or
  SIGINT arrives. \<open><-ctx.Done()\<close> blocks until then, for ever when no signal comes.
\<close>

definition signal_NotifyContext :: "world \<Rightarrow> Context" where
  "signal_NotifyContext w = signal_at w"

definition recv_Done :: "Context \<Rightarrow> world \<Rightarrow> world option" where
  "recv_Done ctx w = (case ctx of None \<Rightarrow> None | Some c \<Rightarrow> Some (w\<lparr>now := max (now w) c\<rparr>))"

definition main :: "globals \<Rightarrow> world \<Rightarrow> unit res option" where
  "main flags w =
     (let ctx = signal_NotifyContext w in
      case configureFromFlags flags w of
        Exits e w1 \<Rightarrow> Some (Exits e w1)
      | Returns g w1 \<Rightarrow>
          (let w2 = dumpConfig g w1 in
           if register g then setupDNS ctx g w2
           else if unRegister g then tearDownDNS ctx g w2
           else (case setupDNS ctx g w2 of
                   None \<Rightarrow> None
                 | Some (Exits e w3) \<Rightarrow> Some (Exits e w3)
                 | Some (Returns u w3) \<Rightarrow>
                     (case recv_Done ctx w3 of
                        None \<Rightarrow> None
                      | Some w4 \<Rightarrow> tearDownDNS Background g w4))))"

section \<open>Reading a run\<close>

text \<open>
  What the theorems below read off a script or a trace: the number of failed replies in
  a list of \<open>GetChange\<close> replies, the requests sent to Route 53, the contexts handed to
  Route 53 and the log lines, each in the order of the run.
\<close>

definition errs :: "(string + string) list \<Rightarrow> nat" where
  "errs rs = length (filter isl rs)"

fun requests :: "(nat \<times> event) list \<Rightarrow> ChangeResourceRecordSetsInput list" where
  "requests [] = []"
| "requests ((t, CallChangeResourceRecordSets c i) # es) = i # requests es"
| "requests (e # es) = requests es"

fun call_contexts :: "(nat \<times> event) list \<Rightarrow> Context list" where
  "call_contexts [] = []"
| "call_contexts ((t, CallChangeResourceRecordSets c i) # es) = c # call_contexts es"
| "call_contexts ((t, CallGetChange c i) # es) = c # call_contexts es"
| "call_contexts (e # es) = call_contexts es"

fun logged :: "(nat \<times> event) list \<Rightarrow> string list" where
  "logged [] = []"
| "logged ((t, Log s) # es) = s # logged es"
| "logged (e # es) = logged es"

text \<open>
  The number of polls \<open>waitForSync\<close> makes before a context cancelled at \<open>c\<close> stops
  it, when it starts in \<open>w\<close>: the polls fall at \<open>now w + 5s\<close>, \<open>now w + 10s\<close>, ...;
  a poll that falls on \<open>c\<close> itself is made when the scheduler takes the timer first.
\<close>

definition polls_before :: "nat \<Rightarrow> world \<Rightarrow> nat" where
  "polls_before c w =
     (if c \<le> now w then 0
      else if timer_first w then (c - now w) div 5000000000
      else (c - now w - 1) div 5000000000)"

text \<open>A process that has just started, with no signal on its way and nothing scripted.\<close>

definition boot :: world where
  "boot = \<lparr>now = 0, signal_at = None, timer_first = False, awsConfig = None,
     imdsPublicIpv4 = Inr (Inr ''203.0.113.7''), ecsEndpoint = Inl ''connection refused'',
     changes = [], statuses = [], trace = []\<rparr>"

section \<open>Lemmas about the polling loop\<close>

declare waitForSync_loop.simps [simp del]

lemma errs_simps [simp]:
  "errs [] = 0" "errs (Inl e # rs) = Suc (errs rs)" "errs (Inr s # rs) = errs rs"
  by (simp_all add: errs_def)

lemma SleepWithContext_statuses [simp]:
  "statuses (snd (SleepWithContext ctx d w)) = statuses w"
  by (auto simp: SleepWithContext_def Let_def split: option.splits if_splits)

lemma loop_cancel:
  "SleepWithContext ctx (5 * Second) w = (Some e, w1) \<Longrightarrow>
   waitForSync_loop ctx cid f w = Some (f, Returns ()
     (emit (Log ''Context cancelled, stop waiting for Route53 ChangeSet to propogate'') w1))"
  by (subst waitForSync_loop.simps) simp

lemma loop_Nil:
  "SleepWithContext ctx (5 * Second) w = (None, w1) \<Longrightarrow> statuses w = [] \<Longrightarrow>
   waitForSync_loop ctx cid f w = None"
  using SleepWithContext_statuses [of ctx "5 * Second" w]
  by (subst waitForSync_loop.simps) (simp add: r53_GetChange_def)

lemma loop_Inl:
  "SleepWithContext ctx (5 * Second) w = (None, w1) \<Longrightarrow> statuses w = Inl e # rs \<Longrightarrow>
   waitForSync_loop ctx cid f w =
     (if 3 < f + 1
      then Some (f + 1, Exits (Fatal ''Failed the maximum times getting changeset, exiting'')
             (emit (Log ''Failed getting ChangeSet result: %v'')
               ((emit (CallGetChange ctx cid) w1)\<lparr>statuses := rs\<rparr>)))
      else waitForSync_loop ctx cid (f + 1)
             (emit (Log ''Failed getting ChangeSet result: %v'')
               ((emit (CallGetChange ctx cid) w1)\<lparr>statuses := rs\<rparr>)))"
  using SleepWithContext_statuses [of ctx "5 * Second" w]
  by (subst waitForSync_loop.simps) (simp add: r53_GetChange_def)

lemma loop_Inr:
  "SleepWithContext ctx (5 * Second) w = (None, w1) \<Longrightarrow> statuses w = Inr s # rs \<Longrightarrow>
   waitForSync_loop ctx cid f w =
     (if s = ''INSYNC''
      then Some (f, Returns () (emit (Log ''Route53 Change Completed'')
             ((emit (CallGetChange ctx cid) w1)\<lparr>statuses := rs\<rparr>)))
      else waitForSync_loop ctx cid f
             (emit (Log ''Route53 Change not yet propogated (ChangeInfo.Status = %s)...'')
               ((emit (CallGetChange ctx cid) w1)\<lparr>statuses := rs\<rparr>)))"
  using SleepWithContext_statuses [of ctx "5 * Second" w]
  by (subst waitForSync_loop.simps) (simp add: r53_GetChange_def)

lemma emit_simps [simp]:
  "statuses (emit e w) = statuses w" "now (emit e w) = now w"
  "changes (emit e w) = changes w" "signal_at (emit e w) = signal_at w"
  "timer_first (emit e w) = timer_first w"
  "trace (emit e w) = trace w @ [(now w, e)]"
  by (simp_all add: emit_def)

lemma SleepWithContext_None:
  "SleepWithContext ctx d w = (None, w1) \<Longrightarrow> w1 = w\<lparr>now := now w + nat d\<rparr>"
  by (auto simp: SleepWithContext_def Let_def split: option.splits if_splits)

lemma SleepWithContext_Some:
  "SleepWithContext ctx d w = (Some e, w1) \<Longrightarrow>
     \<exists>c. ctx = Some c \<and> w1 = w\<lparr>now := max (now w) c\<rparr> \<and> e = ''context canceled''"
  by (auto simp: SleepWithContext_def Let_def split: option.splits if_splits)

lemma loop_induct [consumes 1, case_names cancel fatal error insync pending]:
  assumes run: "waitForSync_loop ctx cid f w = Some res"
    and cancel: "\<And>f w c. ctx = Some c \<Longrightarrow>
        SleepWithContext ctx (5 * Second) w = (Some ''context canceled'', w\<lparr>now := max (now w) c\<rparr>) \<Longrightarrow>
        P f w (f, Returns ()
          (emit (Log ''Context cancelled, stop waiting for Route53 ChangeSet to propogate'')
             (w\<lparr>now := max (now w) c\<rparr>)))"
    and fatal: "\<And>f w e rs.
        SleepWithContext ctx (5 * Second) w = (None, w\<lparr>now := now w + nat (5 * Second)\<rparr>) \<Longrightarrow>
        statuses w = Inl e # rs \<Longrightarrow> 3 < f + 1 \<Longrightarrow>
        P f w (f + 1, Exits (Fatal ''Failed the maximum times getting changeset, exiting'')
          (emit (Log ''Failed getting ChangeSet result: %v'')
             ((emit (CallGetChange ctx cid) (w\<lparr>now := now w + nat (5 * Second)\<rparr>))\<lparr>statuses := rs\<rparr>)))"
    and error: "\<And>f w e rs res.
        SleepWithContext ctx (5 * Second) w = (None, w\<lparr>now := now w + nat (5 * Second)\<rparr>) \<Longrightarrow>
        statuses w = Inl e # rs \<Longrightarrow> \<not> 3 < f + 1 \<Longrightarrow>
        P (f + 1) (emit (Log ''Failed getting ChangeSet result: %v'')
             ((emit (CallGetChange ctx cid) (w\<lparr>now := now w + nat (5 * Second)\<rparr>))\<lparr>statuses := rs\<rparr>)) res \<Longrightarrow>
        P f w res"
    and insync: "\<And>f w rs.
        SleepWithContext ctx (5 * Second) w = (None, w\<lparr>now := now w + nat (5 * Second)\<rparr>) \<Longrightarrow>
        statuses w = Inr ''INSYNC'' # rs \<Longrightarrow>
        P f w (f, Returns () (emit (Log ''Route53 Change Completed'')
             ((emit (CallGetChange ctx cid) (w\<lparr>now := now w + nat (5 * Second)\<rparr>))\<lparr>statuses := rs\<rparr>)))"
    and pending: "\<And>f w s rs res.
        SleepWithContext ctx (5 * Second) w = (None, w\<lparr>now := now w + nat (5 * Second)\<rparr>) \<Longrightarrow>
        statuses w = Inr s # rs \<Longrightarrow> s \<noteq> ''INSYNC'' \<Longrightarrow>
        P f (emit (Log ''Route53 Change not yet propogated (ChangeInfo.Status = %s)...'')
             ((emit (CallGetChange ctx cid) (w\<lparr>now := now w + nat (5 * Second)\<rparr>))\<lparr>statuses := rs\<rparr>)) res \<Longrightarrow>
        P f w res"
  shows "P f w res"
  using run
proof (induction "statuses w" arbitrary: w f)
  case Nil
  obtain e w1 where sl: "SleepWithContext ctx (5 * Second) w = (e, w1)"
    by (cases "SleepWithContext ctx (5 * Second) w")
  show ?case
  proof (cases e)
    case None
    with sl Nil show ?thesis by (simp add: loop_Nil)
  next
    case (Some a)
    from SleepWithContext_Some [OF sl [unfolded Some]] obtain c where
      c: "ctx = Some c" "w1 = w\<lparr>now := max (now w) c\<rparr>" "a = ''context canceled''" by blast
    from sl Some c have sl': "SleepWithContext ctx (5 * Second) w
        = (Some ''context canceled'', w\<lparr>now := max (now w) c\<rparr>)" by simp
    from Nil.prems show ?thesis
      unfolding loop_cancel [OF sl'] using cancel [OF c(1) sl', of f] by auto
  qed
next
  case (Cons x rs)
  obtain e w1 where sl: "SleepWithContext ctx (5 * Second) w = (e, w1)"
    by (cases "SleepWithContext ctx (5 * Second) w")
  show ?case
  proof (cases e)
    case (Some a)
    from SleepWithContext_Some [OF sl [unfolded Some]] obtain c where
      c: "ctx = Some c" "w1 = w\<lparr>now := max (now w) c\<rparr>" "a = ''context canceled''" by blast
    from sl Some c have sl': "SleepWithContext ctx (5 * Second) w
        = (Some ''context canceled'', w\<lparr>now := max (now w) c\<rparr>)" by simp
    from Cons.prems show ?thesis
      unfolding loop_cancel [OF sl'] using cancel [OF c(1) sl', of f] by auto
  next
    case None
    from SleepWithContext_None [OF sl [unfolded None]] sl None
    have sl': "SleepWithContext ctx (5 * Second) w = (None, w\<lparr>now := now w + nat (5 * Second)\<rparr>)"
      by simp
    show ?thesis
    proof (cases x)
      case (Inl err)
      have stw: "statuses w = Inl err # rs" using Cons.hyps(2) Inl by simp
      note eq = loop_Inl [OF sl' stw, of cid f]
      show ?thesis
      proof (cases "3 < f + 1")
        case True
        with eq Cons.prems fatal [OF sl' stw True] show ?thesis by auto
      next
        case False
        with eq Cons.prems have "waitForSync_loop ctx cid (f + 1)
           (emit (Log ''Failed getting ChangeSet result: %v'')
             ((emit (CallGetChange ctx cid) (w\<lparr>now := now w + nat (5 * Second)\<rparr>))\<lparr>statuses := rs\<rparr>))
           = Some res" by simp
        from Cons.hyps(1) [OF _ this] show ?thesis
          by (intro error [OF sl' stw False]) simp
      qed
    next
      case (Inr s)
      have stw: "statuses w = Inr s # rs" using Cons.hyps(2) Inr by simp
      note eq = loop_Inr [OF sl' stw, of cid f]
      show ?thesis
      proof (cases "s = ''INSYNC''")
        case True
        with eq Cons.prems insync [OF sl' stw [unfolded True], of f] show ?thesis by auto
      next
        case False
        with eq Cons.prems have "waitForSync_loop ctx cid f
           (emit (Log ''Route53 Change not yet propogated (ChangeInfo.Status = %s)...'')
             ((emit (CallGetChange ctx cid) (w\<lparr>now := now w + nat (5 * Second)\<rparr>))\<lparr>statuses := rs\<rparr>))
           = Some res" by simp
        from Cons.hyps(1) [OF _ this] show ?thesis
          by (intro pending [OF sl' stw False]) simp
      qed
    qed
  qed
qed


lemma requests_append [simp]: "requests (xs @ ys) = requests xs @ requests ys"
  by (induction xs rule: requests.induct) simp_all

lemma call_contexts_append [simp]: "call_contexts (xs @ ys) = call_contexts xs @ call_contexts ys"
  by (induction xs rule: call_contexts.induct) simp_all

lemma logged_append [simp]: "logged (xs @ ys) = logged xs @ logged ys"
  by (induction xs rule: logged.induct) simp_all

lemma loop_counts:
  "waitForSync_loop ctx cid f w = Some res \<Longrightarrow> f \<le> 3 \<Longrightarrow>
     \<exists>k\<le>length (statuses w). statuses (world_of (snd res)) = drop k (statuses w)
        \<and> fst res = f + errs (take k (statuses w)) \<and> (exited (snd res) \<longleftrightarrow> 3 < fst res)"
proof (induction rule: loop_induct)
  case (cancel f w c)
  then show ?case by (auto intro!: exI[of _ 0])
next
  case (fatal f w e rs)
  then show ?case by (auto intro!: exI[of _ 1])
next
  case (error f w e rs res)
  then obtain k where "k \<le> length rs" "statuses (world_of (snd res)) = drop k rs"
     "fst res = f + 1 + errs (take k rs)" "exited (snd res) \<longleftrightarrow> 3 < fst res"
    by auto
  with error(2) show ?case by (auto intro!: exI[of _ "Suc k"])
next
  case (insync f w rs)
  then show ?case by (auto intro!: exI[of _ 1])
next
  case (pending f w s rs res)
  then obtain k where "k \<le> length rs" "statuses (world_of (snd res)) = drop k rs"
     "fst res = f + errs (take k rs)" "exited (snd res) \<longleftrightarrow> 3 < fst res"
    by auto
  with pending(2) show ?case by (auto intro!: exI[of _ "Suc k"])
qed

lemma loop_frame:
  "waitForSync_loop ctx cid f w = Some res \<Longrightarrow>
     \<exists>evs. trace (world_of (snd res)) = trace w @ evs \<and> requests evs = []
        \<and> set (call_contexts evs) \<subseteq> {ctx}
        \<and> (ctx = None \<longrightarrow> ''Context cancelled, stop waiting for Route53 ChangeSet to propogate'' \<notin> set (logged evs))
        \<and> (\<forall>t\<in>fst ` set evs. now w \<le> t)
        \<and> now w \<le> now (world_of (snd res))
        \<and> signal_at (world_of (snd res)) = signal_at w
        \<and> timer_first (world_of (snd res)) = timer_first w
        \<and> changes (world_of (snd res)) = changes w"
proof (induction rule: loop_induct)
  case (cancel f w c)
  then show ?case by simp
next
  case (fatal f w e rs)
  then show ?case by simp
next
  case (error f w e rs res)
  then show ?case by (auto simp: image_iff) force+
next
  case (insync f w rs)
  then show ?case by simp
next
  case (pending f w s rs res)
  then show ?case by (auto simp: image_iff) force+
qed


lemma sleep_timer:
  "\<forall>c. ctx = Some c \<longrightarrow> now w + 5000000000 < c \<or> (now w + 5000000000 = c \<and> timer_first w) \<Longrightarrow>
   SleepWithContext ctx (5 * Second) w = (None, w\<lparr>now := now w + nat (5 * Second)\<rparr>)"
  by (auto simp: SleepWithContext_def Let_def Second_def split: option.splits)

lemma sleep_cancelled:
  "c < now w + 5000000000 \<or> (c = now w + 5000000000 \<and> \<not> timer_first w) \<Longrightarrow>
   SleepWithContext (Some c) (5 * Second) w = (Some ''context canceled'', w\<lparr>now := max (now w) c\<rparr>)"
  by (auto simp: SleepWithContext_def Let_def Second_def split: option.splits)


lemma loop_skip:
  "statuses w = pre @ rest \<Longrightarrow> Inr ''INSYNC'' \<notin> set pre \<Longrightarrow> f + errs pre \<le> 3 \<Longrightarrow>
   \<forall>c. ctx = Some c \<longrightarrow> pre = [] \<or> now w + 5000000000 * length pre < c
        \<or> (now w + 5000000000 * length pre = c \<and> timer_first w) \<Longrightarrow>
   \<exists>W. waitForSync_loop ctx cid f w = waitForSync_loop ctx cid (f + errs pre) W
      \<and> statuses W = rest \<and> now W = now w + 5000000000 * length pre
      \<and> timer_first W = timer_first w"
proof (induction pre arbitrary: w f)
  case Nil
  then show ?case by (intro exI[of _ w]) simp
next
  case (Cons x pre)
  have sl: "SleepWithContext ctx (5 * Second) w = (None, w\<lparr>now := now w + nat (5 * Second)\<rparr>)"
    using Cons.prems(4) by (intro sleep_timer) auto
  define l where "l = (case x of
      Inl e \<Rightarrow> ''Failed getting ChangeSet result: %v''
    | Inr s \<Rightarrow> ''Route53 Change not yet propogated (ChangeInfo.Status = %s)...'')"
  define f' where "f' = (case x of Inl e \<Rightarrow> f + 1 | Inr s \<Rightarrow> f)"
  define W where "W = emit (Log l)
     ((emit (CallGetChange ctx cid) (w\<lparr>now := now w + nat (5 * Second)\<rparr>))\<lparr>statuses := pre @ rest\<rparr>)"
  from Cons.prems(1) have st: "statuses w = x # (pre @ rest)" by simp
  have eq: "waitForSync_loop ctx cid f w = waitForSync_loop ctx cid f' W"
  proof (cases x)
    case (Inl e)
    with Cons.prems(3) have "\<not> 3 < f + 1" by auto
    with loop_Inl [OF sl st [unfolded Inl], of cid f] Inl show ?thesis
      by (simp add: W_def l_def f'_def)
  next
    case (Inr s)
    with Cons.prems(2) have "s \<noteq> ''INSYNC''" by auto
    with loop_Inr [OF sl st [unfolded Inr], of cid f] Inr show ?thesis
      by (simp add: W_def l_def f'_def)
  qed
  have f': "f' + errs pre = f + errs (x # pre)"
    by (cases x) (simp_all add: f'_def)
  have W: "statuses W = pre @ rest" "now W = now w + 5000000000" "timer_first W = timer_first w"
    by (simp_all add: W_def Second_def)
  have "\<exists>W'. waitForSync_loop ctx cid f' W = waitForSync_loop ctx cid (f' + errs pre) W'
      \<and> statuses W' = rest \<and> now W' = now W + 5000000000 * length pre
      \<and> timer_first W' = timer_first W"
    using Cons.prems(2,3,4) W f' by (intro Cons.IH) auto
  then show ?case
    unfolding eq f' W by auto
qed

lemma loop_insync_run:
  assumes "statuses w = pre @ Inr ''INSYNC'' # post" "Inr ''INSYNC'' \<notin> set pre"
    "f + errs pre \<le> 3"
    "\<forall>c. ctx = Some c \<longrightarrow> now w + 5000000000 * (length pre + 1) < c"
  shows "\<exists>w'. waitForSync_loop ctx cid f w = Some (f + errs pre, Returns () w')
      \<and> statuses w' = post \<and> now w' = now w + 5000000000 * (length pre + 1)
      \<and> last (trace w') = (now w', Log ''Route53 Change Completed'')"
proof -
  from assms(4) have "\<forall>c. ctx = Some c \<longrightarrow> pre = [] \<or> now w + 5000000000 * length pre < c
        \<or> (now w + 5000000000 * length pre = c \<and> timer_first w)" by auto
  from loop_skip [OF assms(1-3) this, of cid] obtain W where
    W: "waitForSync_loop ctx cid f w = waitForSync_loop ctx cid (f + errs pre) W"
      "statuses W = Inr ''INSYNC'' # post" "now W = now w + 5000000000 * length pre"
    by blast
  have sl: "SleepWithContext ctx (5 * Second) W = (None, W\<lparr>now := now W + nat (5 * Second)\<rparr>)"
    using assms(4) W(3) by (intro sleep_timer) auto
  show ?thesis
    unfolding W(1) by (simp add: loop_Inr [OF sl W(2)] W(3) Second_def)
qed

lemma loop_fatal_run:
  assumes "statuses w = pre @ Inl e # post" "Inr ''INSYNC'' \<notin> set pre"
    "f + errs pre = 3"
    "\<forall>c. ctx = Some c \<longrightarrow> now w + 5000000000 * (length pre + 1) < c"
  shows "\<exists>w'. waitForSync_loop ctx cid f w
        = Some (4, Exits (Fatal ''Failed the maximum times getting changeset, exiting'') w')
      \<and> statuses w' = post \<and> now w' = now w + 5000000000 * (length pre + 1)"
proof -
  from assms(4) have a: "\<forall>c. ctx = Some c \<longrightarrow> pre = [] \<or> now w + 5000000000 * length pre < c
        \<or> (now w + 5000000000 * length pre = c \<and> timer_first w)" by auto
  from assms(3) have "f + errs pre \<le> 3" by simp
  from loop_skip [OF assms(1,2) this a, of cid] obtain W where
    W: "waitForSync_loop ctx cid f w = waitForSync_loop ctx cid (f + errs pre) W"
      "statuses W = Inl e # post" "now W = now w + 5000000000 * length pre"
    by blast
  have sl: "SleepWithContext ctx (5 * Second) W = (None, W\<lparr>now := now W + nat (5 * Second)\<rparr>)"
    using assms(4) W(3) by (intro sleep_timer) auto
  show ?thesis
    unfolding W(1) assms(3) by (simp add: loop_Inl [OF sl W(2)] W(3) Second_def)
qed

lemma loop_cancel_run:
  assumes "k \<le> length (statuses w)" "Inr ''INSYNC'' \<notin> set (take k (statuses w))"
    "f + errs (take k (statuses w)) \<le> 3"
    "k = 0 \<or> now w + 5000000000 * k < c \<or> (now w + 5000000000 * k = c \<and> timer_first w)"
    "c < now w + 5000000000 * (k + 1) \<or> (c = now w + 5000000000 * (k + 1) \<and> \<not> timer_first w)"
  shows "\<exists>w'. waitForSync_loop (Some c) cid f w
        = Some (f + errs (take k (statuses w)), Returns () w')
      \<and> statuses w' = drop k (statuses w) \<and> now w' = max (now w) c
      \<and> last (trace w')
         = (max (now w) c, Log ''Context cancelled, stop waiting for Route53 ChangeSet to propogate'')"
proof -
  have st: "statuses w = take k (statuses w) @ drop k (statuses w)" by simp
  from assms(1,4) have a: "\<forall>c'. Some c = Some c' \<longrightarrow> take k (statuses w) = []
        \<or> now w + 5000000000 * length (take k (statuses w)) < c'
        \<or> (now w + 5000000000 * length (take k (statuses w)) = c' \<and> timer_first w)"
    by (auto simp: min_def)
  from loop_skip [OF st assms(2,3) a, of cid] obtain W where
    W: "waitForSync_loop (Some c) cid f w
          = waitForSync_loop (Some c) cid (f + errs (take k (statuses w))) W"
      "statuses W = drop k (statuses w)" "now W = now w + 5000000000 * length (take k (statuses w))"
      "timer_first W = timer_first w"
    by blast
  from assms(1) W(3) have nW: "now W = now w + 5000000000 * k" by (simp add: min_def)
  have sl: "SleepWithContext (Some c) (5 * Second) W
      = (Some ''context canceled'', W\<lparr>now := max (now W) c\<rparr>)"
    using assms(5) nW W(4) by (intro sleep_cancelled) auto
  have mx: "max (now W) c = max (now w) c"
    using assms(4) nW by (auto simp: max_def)
  show ?thesis
    unfolding W(1) by (simp add: loop_cancel [OF sl] W(2) mx)
qed

lemma polls_before_bounds:
  "(polls_before c w = 0 \<or> now w + 5000000000 * polls_before c w < c
      \<or> (now w + 5000000000 * polls_before c w = c \<and> timer_first w))
   \<and> (c < now w + 5000000000 * (polls_before c w + 1)
      \<or> (c = now w + 5000000000 * (polls_before c w + 1) \<and> \<not> timer_first w))"
proof (cases "c \<le> now w")
  case True
  then show ?thesis by (simp add: polls_before_def)
next
  case False
  define d where "d = c - now w"
  with False have c: "c = now w + d" "0 < d" by simp_all
  show ?thesis
  proof (cases "timer_first w")
    case True
    have "5000000000 * (d div 5000000000) \<le> d" "d < 5000000000 * (d div 5000000000 + 1)"
      using div_times_less_eq_dividend [of d 5000000000]
        dividend_less_div_times [of 5000000000 d] by (simp_all add: mult.commute)
    with True c show ?thesis by (auto simp: polls_before_def)
  next
    case False
    have "5000000000 * ((d - 1) div 5000000000) \<le> d - 1"
      "d - 1 < 5000000000 * ((d - 1) div 5000000000 + 1)"
      using div_times_less_eq_dividend [of "d - 1" 5000000000]
        dividend_less_div_times [of 5000000000 "d - 1"] by (simp_all add: mult.commute)
    with False c show ?thesis by (auto simp: polls_before_def)
  qed
qed

section \<open>The failure budget of waitForSync\<close>

text \<open>
  C1. Within one call of \<open>waitForSync\<close> the process is ended exactly when more than
  three \<open>GetChange\<close> calls of that call have failed. First part: whenever the loop,
  started with \<open>failures = 0\<close>, comes to an end, it has consumed some prefix of the
  scripted replies, its counter is the number of failed replies in that prefix (all of
  them, whatever successful replies lie between), and it ended the process if and only
  if that number is above 3. Second part: if the context is not cancelled meanwhile, a
  script with at most three failures before the first \<open>INSYNC\<close> makes the call return
  normally; so three failures followed by \<open>INSYNC\<close> succeed. Third part: a fourth
  failure before any \<open>INSYNC\<close> ends the process. The theorem holds for every world
  \<open>w\<close>, so for every call anew: nothing of an earlier call's counter is left.
\<close>

theorem waitForSync_failure_budget:
  "(\<forall>n r. waitForSync_loop ctx cid 0 w = Some (n, r) \<longrightarrow>
      (\<exists>k\<le>length (statuses w). statuses (world_of r) = drop k (statuses w)
          \<and> n = errs (take k (statuses w)))
      \<and> (exited r \<longleftrightarrow> 3 < n))
   \<and> (\<forall>pre post. statuses w = pre @ Inr ''INSYNC'' # post \<and> Inr ''INSYNC'' \<notin> set pre
          \<and> errs pre \<le> 3
          \<and> (\<forall>c. ctx = Some c \<longrightarrow> now w + 5000000000 * (length pre + 1) < c) \<longrightarrow>
        (\<exists>w'. waitForSync_loop ctx cid 0 w = Some (errs pre, Returns () w')
            \<and> waitForSync ctx cid w = Some (Returns () w') \<and> statuses w' = post))
   \<and> (\<forall>pre e post. statuses w = pre @ Inl e # post \<and> Inr ''INSYNC'' \<notin> set pre
          \<and> errs pre = 3
          \<and> (\<forall>c. ctx = Some c \<longrightarrow> now w + 5000000000 * (length pre + 1) < c) \<longrightarrow>
        (\<exists>w'. waitForSync_loop ctx cid 0 w
              = Some (4, Exits (Fatal ''Failed the maximum times getting changeset, exiting'') w')
            \<and> waitForSync ctx cid w
              = Some (Exits (Fatal ''Failed the maximum times getting changeset, exiting'') w')
            \<and> statuses w' = post))"
proof (intro conjI allI impI)
  fix n r
  assume run: "waitForSync_loop ctx cid 0 w = Some (n, r)"
  from loop_counts [OF run] obtain k where
    k: "k \<le> length (statuses w)" "statuses (world_of r) = drop k (statuses w)"
      "n = errs (take k (statuses w))" "exited r \<longleftrightarrow> 3 < n"
    by auto
  from k(1-3) show "\<exists>k\<le>length (statuses w). statuses (world_of r) = drop k (statuses w)
      \<and> n = errs (take k (statuses w))" by blast
  from k(4) show "exited r \<longleftrightarrow> 3 < n" .
next
  fix pre post
  assume a: "statuses w = pre @ Inr ''INSYNC'' # post \<and> Inr ''INSYNC'' \<notin> set pre
          \<and> errs pre \<le> 3
          \<and> (\<forall>c. ctx = Some c \<longrightarrow> now w + 5000000000 * (length pre + 1) < c)"
  then have "0 + errs pre \<le> 3" by simp
  from loop_insync_run [OF _ _ this, of w post ctx cid] a
  show "\<exists>w'. waitForSync_loop ctx cid 0 w = Some (errs pre, Returns () w')
            \<and> waitForSync ctx cid w = Some (Returns () w') \<and> statuses w' = post"
    by (auto simp: waitForSync_def)
next
  fix pre e post
  assume a: "statuses w = pre @ Inl e # post \<and> Inr ''INSYNC'' \<notin> set pre
          \<and> errs pre = 3
          \<and> (\<forall>c. ctx = Some c \<longrightarrow> now w + 5000000000 * (length pre + 1) < c)"
  then have "0 + errs pre = 3" by simp
  from loop_fatal_run [OF _ _ this, of w e post ctx cid] a
  show "\<exists>w'. waitForSync_loop ctx cid 0 w
              = Some (4, Exits (Fatal ''Failed the maximum times getting changeset, exiting'') w')
            \<and> waitForSync ctx cid w
              = Some (Exits (Fatal ''Failed the maximum times getting changeset, exiting'') w')
            \<and> statuses w' = post"
    by (auto simp: waitForSync_def)
qed

text \<open>
  Three failures with a pending reply between them, then \<open>INSYNC\<close>: the call returns
  with its counter at 3. One more failure in place of \<open>INSYNC\<close>: the process ends.
\<close>

theorem waitForSync_failure_budget_witness:
  "(\<exists>w'. waitForSync_loop Background ''C1'' 0
        (boot\<lparr>statuses := [Inl ''timeout'', Inr ''PENDING'', Inl ''timeout'', Inl ''timeout'',
           Inr ''INSYNC'']\<rparr>) = Some (3, Returns () w') \<and> statuses w' = [])
   \<and> (\<exists>w'. waitForSync_loop Background ''C1'' 0
        (boot\<lparr>statuses := [Inl ''timeout'', Inr ''PENDING'', Inl ''timeout'', Inl ''timeout'',
           Inl ''timeout'', Inr ''INSYNC'']\<rparr>)
         = Some (4, Exits (Fatal ''Failed the maximum times getting changeset, exiting'') w')
       \<and> statuses w' = [Inr ''INSYNC''])"
proof -
  let ?pre = "[Inl ''timeout'', Inr ''PENDING'', Inl ''timeout'', Inl ''timeout'']
      :: (string + string) list"
  let ?w1 = "boot\<lparr>statuses := ?pre @ Inr ''INSYNC'' # []\<rparr>"
  let ?w2 = "boot\<lparr>statuses := ?pre @ Inl ''timeout'' # [Inr ''INSYNC'']\<rparr>"
  have e: "errs ?pre = 3" by (simp add: errs_def)
  have "\<exists>w'. waitForSync_loop Background ''C1'' 0 ?w1 = Some (errs ?pre, Returns () w')
            \<and> waitForSync Background ''C1'' ?w1 = Some (Returns () w') \<and> statuses w' = []"
    using waitForSync_failure_budget [of Background "''C1''" ?w1, THEN conjunct2, THEN conjunct1,
      rule_format, of ?pre "[]"] e
    by (simp add: Background_def)
  moreover
  have "\<exists>w'. waitForSync_loop Background ''C1'' 0 ?w2
              = Some (4, Exits (Fatal ''Failed the maximum times getting changeset, exiting'') w')
            \<and> waitForSync Background ''C1'' ?w2
              = Some (Exits (Fatal ''Failed the maximum times getting changeset, exiting'') w')
            \<and> statuses w' = [Inr ''INSYNC'']"
    using waitForSync_failure_budget [of Background "''C1''" ?w2, THEN conjunct2, THEN conjunct2,
      rule_format, of ?pre "''timeout''" "[Inr ''INSYNC'']"] e
    by (simp add: Background_def)
  ultimately show ?thesis
    using e by auto
qed

section \<open>Cancelling a pending wait\<close>



section \<open>Lemmas about setupDNS, tearDownDNS and main\<close>

lemma loop_returns:
  "waitForSync_loop ctx cid f w = Some res \<Longrightarrow> snd res = Returns u w' \<Longrightarrow>
     \<exists>evs l. trace w' = trace w @ evs @ [(now w', Log l)]
        \<and> (l = ''Route53 Change Completed''
           \<or> (ctx \<noteq> None
              \<and> l = ''Context cancelled, stop waiting for Route53 ChangeSet to propogate''))
        \<and> (ctx = None \<longrightarrow> ''Route53 Change Completed'' \<in> set (logged (evs @ [(now w', Log l)])))"
proof (induction arbitrary: u w' rule: loop_induct)
  case (cancel f w c)
  then show ?case by auto
next
  case (fatal f w e rs)
  then show ?case by simp
next
  case (error f w e rs res)
  from error(4) [OF error(5)] obtain evs l where
    "trace w' = trace w @ ((now w + nat (5 * Second), CallGetChange ctx cid)
        # (now w + nat (5 * Second), Log ''Failed getting ChangeSet result: %v'') # evs)
        @ [(now w', Log l)]"
    "l = ''Route53 Change Completed''
       \<or> (ctx \<noteq> None \<and> l = ''Context cancelled, stop waiting for Route53 ChangeSet to propogate'')"
    "ctx = None \<longrightarrow> ''Route53 Change Completed'' \<in> set (logged (evs @ [(now w', Log l)]))"
    by auto
  then show ?case
    by (intro exI conjI) (assumption, assumption, simp)
next
  case (insync f w rs)
  then show ?case by auto
next
  case (pending f w s rs res)
  from pending(4) [OF pending(5)] obtain evs l where
    "trace w' = trace w @ ((now w + nat (5 * Second), CallGetChange ctx cid)
        # (now w + nat (5 * Second),
           Log ''Route53 Change not yet propogated (ChangeInfo.Status = %s)...'') # evs)
        @ [(now w', Log l)]"
    "l = ''Route53 Change Completed''
       \<or> (ctx \<noteq> None \<and> l = ''Context cancelled, stop waiting for Route53 ChangeSet to propogate'')"
    "ctx = None \<longrightarrow> ''Route53 Change Completed'' \<in> set (logged (evs @ [(now w', Log l)]))"
    by auto
  then show ?case
    by (intro exI conjI) (assumption, assumption, simp)
qed

lemma waitForSync_frame:
  assumes "waitForSync ctx cid w = Some r"
  shows "\<exists>evs. trace (world_of r) = trace w @ evs \<and> requests evs = []
        \<and> set (call_contexts evs) \<subseteq> {ctx}
        \<and> (ctx = None \<longrightarrow> ''Context cancelled, stop waiting for Route53 ChangeSet to propogate'' \<notin> set (logged evs))
        \<and> now w \<le> now (world_of r)
        \<and> signal_at (world_of r) = signal_at w
        \<and> changes (world_of r) = changes w"
proof -
  from assms obtain n where "waitForSync_loop ctx cid 0 w = Some (n, r)"
    by (auto simp: waitForSync_def)
  from loop_frame [OF this] show ?thesis by auto
qed

lemma waitForSync_returns:
  assumes "waitForSync ctx cid w = Some (Returns u w')"
  shows "\<exists>evs l. trace w' = trace w @ evs @ [(now w', Log l)]
        \<and> (l = ''Route53 Change Completed''
           \<or> (ctx \<noteq> None
              \<and> l = ''Context cancelled, stop waiting for Route53 ChangeSet to propogate''))
        \<and> (ctx = None \<longrightarrow> ''Route53 Change Completed'' \<in> set (logged (evs @ [(now w', Log l)])))"
proof -
  from assms obtain n where "waitForSync_loop ctx cid 0 w = Some (n, Returns u w')"
    by (auto simp: waitForSync_def)
  from loop_returns [OF this] show ?thesis by simp
qed

lemma setupDNS_submit_error:
  assumes "changes w = Inl err # rest"
  shows "\<exists>w' evs. setupDNS ctx g w = Some (Returns () w')
      \<and> trace w' = trace w @ evs @ [(now w', CallChangeResourceRecordSets ctx (setupDNS_input g)),
            (now w', Log ''Failed to create DNS: %v'')]
      \<and> requests evs = [] \<and> call_contexts evs = []
      \<and> statuses w' = statuses w \<and> changes w' = rest \<and> signal_at w' = signal_at w"
  using assms
  by (simp add: setupDNS_def r53_ChangeResourceRecordSets_def Let_def time_Sleep_def)

lemma tearDownDNS_submit_error:
  assumes "changes w = Inl err # rest"
  shows "\<exists>w'. tearDownDNS ctx g w = Some (Exits (Fatal ''Failed to delete DNS, exiting: %v'') w')
      \<and> trace w' = trace w @ [(now w, Log ''Tearing down Route 53 DNS Name A %s => %s''),
            (now w, CallChangeResourceRecordSets ctx (tearDownDNS_input g))]
      \<and> now w' = now w \<and> statuses w' = statuses w \<and> changes w' = rest"
  using assms
  by (simp add: tearDownDNS_def r53_ChangeResourceRecordSets_def)

lemma time_Sleep_simps [simp]:
  "trace (time_Sleep d w) = trace w" "statuses (time_Sleep d w) = statuses w"
  "changes (time_Sleep d w) = changes w" "signal_at (time_Sleep d w) = signal_at w"
  "timer_first (time_Sleep d w) = timer_first w"
  "now (time_Sleep d w) = (if d \<le> 0 then now w else now w + nat d)"
  by (simp_all add: time_Sleep_def)

lemma setupDNS_frame:
  assumes "setupDNS ctx g w = Some r"
  shows "\<exists>evs. trace (world_of r) = trace w @ evs \<and> requests evs = [setupDNS_input g]
        \<and> set (call_contexts evs) \<subseteq> {ctx}
        \<and> now w \<le> now (world_of r)
        \<and> signal_at (world_of r) = signal_at w"
proof -
  define w1 where "w1 = (if 0 <s setupDelay g
      then emit (Log ''Finished waiting'')
             (time_Sleep (seconds (setupDelay g))
               (emit (Log ''Waiting %d seconds before setting up DNS (SETUPDELAY)'')
                 (emit (Log ''Setting up Route 53 DNS Name A %s => %s'') w)))
      else emit (Log ''Setting up Route 53 DNS Name A %s => %s'') w)"
  have w1: "\<exists>evs. trace w1 = trace w @ evs \<and> requests evs = [] \<and> call_contexts evs = []"
    "now w \<le> now w1" "signal_at w1 = signal_at w" "changes w1 = changes w"
    by (simp_all add: w1_def)
  then obtain evs1 where evs1: "trace w1 = trace w @ evs1" "requests evs1 = []"
    "call_contexts evs1 = []" by blast
  have eq: "setupDNS ctx g w =
      (case r53_ChangeResourceRecordSets ctx (setupDNS_input g) w1 of
           None \<Rightarrow> None
         | Some (Inl err, w2) \<Rightarrow> Some (Returns () (emit (Log ''Failed to create DNS: %v'') w2))
         | Some (Inr changeSet, w2) \<Rightarrow>
             waitForSync ctx changeSet (emit (Log ''Request sent to Route 53...'') w2))"
    by (simp add: setupDNS_def w1_def Let_def)
  show ?thesis
  proof (cases "changes w1")
    case Nil
    with assms eq show ?thesis by (simp add: r53_ChangeResourceRecordSets_def)
  next
    case (Cons x rest)
    define w2 where "w2 = (emit (CallChangeResourceRecordSets ctx (setupDNS_input g)) w1)\<lparr>changes := rest\<rparr>"
    have sub: "r53_ChangeResourceRecordSets ctx (setupDNS_input g) w1 = Some (x, w2)"
      using Cons by (simp add: r53_ChangeResourceRecordSets_def w2_def)
    have w2: "trace w2 = trace w @ evs1 @ [(now w1, CallChangeResourceRecordSets ctx (setupDNS_input g))]"
      "now w2 = now w1" "signal_at w2 = signal_at w"
      using evs1 w1 by (simp_all add: w2_def)
    show ?thesis
    proof (cases x)
      case (Inl err)
      with assms eq sub have "r = Returns () (emit (Log ''Failed to create DNS: %v'') w2)"
        by simp
      with w2 w1(2) evs1 show ?thesis by simp
    next
      case (Inr changeSet)
      with assms eq sub have
        "waitForSync ctx changeSet (emit (Log ''Request sent to Route 53...'') w2) = Some r"
        by simp
      from waitForSync_frame [OF this] obtain evs where
        "trace (world_of r) = trace w2 @ (now w2, Log ''Request sent to Route 53...'') # evs"
        "requests evs = []" "set (call_contexts evs) \<subseteq> {ctx}"
        "now w2 \<le> now (world_of r)" "signal_at (world_of r) = signal_at w2"
        by auto
      with w2 w1(2) evs1 show ?thesis by simp
    qed
  qed
qed

lemma tearDownDNS_frame:
  assumes "tearDownDNS ctx g w = Some r"
  shows "\<exists>evs. trace (world_of r) = trace w
          @ (now w, Log ''Tearing down Route 53 DNS Name A %s => %s'')
          # (now w, CallChangeResourceRecordSets ctx (tearDownDNS_input g)) # evs
        \<and> requests evs = []
        \<and> set (call_contexts evs) \<subseteq> {ctx}
        \<and> (ctx = None \<longrightarrow> ''Context cancelled, stop waiting for Route53 ChangeSet to propogate'' \<notin> set (logged evs))
        \<and> (ctx = None \<longrightarrow> \<not> exited r \<longrightarrow> ''Route53 Change Completed'' \<in> set (logged evs))"
proof (cases "changes w")
  case Nil
  with assms show ?thesis by (simp add: tearDownDNS_def r53_ChangeResourceRecordSets_def)
next
  case (Cons x rest)
  define w1 where "w1 = (emit (CallChangeResourceRecordSets ctx (tearDownDNS_input g))
      (emit (Log ''Tearing down Route 53 DNS Name A %s => %s'') w))\<lparr>changes := rest\<rparr>"
  have sub: "r53_ChangeResourceRecordSets ctx (tearDownDNS_input g)
      (emit (Log ''Tearing down Route 53 DNS Name A %s => %s'') w) = Some (x, w1)"
    using Cons by (simp add: r53_ChangeResourceRecordSets_def w1_def)
  have w1: "trace w1 = trace w @ [(now w, Log ''Tearing down Route 53 DNS Name A %s => %s''),
      (now w, CallChangeResourceRecordSets ctx (tearDownDNS_input g))]" "now w1 = now w"
    by (simp_all add: w1_def)
  show ?thesis
  proof (cases x)
    case (Inl err)
    with assms sub have "r = Exits (Fatal ''Failed to delete DNS, exiting: %v'') w1"
      by (simp add: tearDownDNS_def)
    with w1 show ?thesis by simp
  next
    case (Inr changeSet)
    let ?w2 = "emit (Log ''Request sent to Route 53...'') w1"
    show ?thesis
    proof (cases "waitForSync ctx changeSet ?w2")
      case None
      with assms sub Inr show ?thesis by (simp add: tearDownDNS_def)
    next
      case (Some r')
      from waitForSync_frame [OF Some] obtain evs where evs:
        "trace (world_of r') = trace ?w2 @ evs" "requests evs = []"
        "set (call_contexts evs) \<subseteq> {ctx}"
        "ctx = None \<longrightarrow> ''Context cancelled, stop waiting for Route53 ChangeSet to propogate'' \<notin> set (logged evs)"
        by blast
      show ?thesis
      proof (cases r')
        case (Exits e w3)
        with assms sub Inr Some have "r = Exits e w3" by (simp add: tearDownDNS_def)
        with evs Exits w1 show ?thesis by simp
      next
        case (Returns u w3)
        with assms sub Inr Some have r: "r = Returns ()
                 (emit (Log ''DNS Timeout expiry finished'')
                   (time_Sleep (seconds (dnsTTL g))
                     (emit (Log ''Waiting for DNS Timeout to expire (%d seconds)'') w3)))"
          by (simp add: tearDownDNS_def)
        from waitForSync_returns [OF Some [unfolded Returns]] evs(1) Returns
        have "ctx = None \<longrightarrow> ''Route53 Change Completed'' \<in> set (logged evs)"
          by auto
        with evs Returns w1 r show ?thesis by simp
      qed
    qed
  qed
qed

section \<open>A rejected change request\<close>

text \<open>
  C3. Let \<open>ChangeResourceRecordSets\<close> answer the next request with an error, whatever
  the error is. Then \<open>setupDNS\<close> sends its request, logs the failure and returns
  normally: the process is not ended, the request is the only call to Route 53 (no
  \<open>GetChange\<close>, so no wait), and no poll reply is consumed. \<open>tearDownDNS\<close> sends its
  request and ends the process at once with \<open>log.Fatalf\<close>: no time passes, nothing is
  polled.
\<close>

theorem submit_error_publish_vs_retract:
  assumes "changes w = Inl err # rest"
  shows "(\<exists>w' evs. setupDNS ctx g w = Some (Returns () w')
        \<and> trace w' = trace w @ evs @ [(now w', CallChangeResourceRecordSets ctx (setupDNS_input g)),
              (now w', Log ''Failed to create DNS: %v'')]
        \<and> call_contexts evs = [] \<and> statuses w' = statuses w)
    \<and> (\<exists>w'. tearDownDNS ctx g w = Some (Exits (Fatal ''Failed to delete DNS, exiting: %v'') w')
        \<and> trace w' = trace w @ [(now w, Log ''Tearing down Route 53 DNS Name A %s => %s''),
              (now w, CallChangeResourceRecordSets ctx (tearDownDNS_input g))]
        \<and> now w' = now w \<and> statuses w' = statuses w)"
proof
  from setupDNS_submit_error [OF assms, of ctx g]
  show "\<exists>w' evs. setupDNS ctx g w = Some (Returns () w')
        \<and> trace w' = trace w @ evs @ [(now w', CallChangeResourceRecordSets ctx (setupDNS_input g)),
              (now w', Log ''Failed to create DNS: %v'')]
        \<and> call_contexts evs = [] \<and> statuses w' = statuses w"
    by blast
  from tearDownDNS_submit_error [OF assms, of ctx g]
  show "\<exists>w'. tearDownDNS ctx g w = Some (Exits (Fatal ''Failed to delete DNS, exiting: %v'') w')
        \<and> trace w' = trace w @ [(now w, Log ''Tearing down Route 53 DNS Name A %s => %s''),
              (now w, CallChangeResourceRecordSets ctx (tearDownDNS_input g))]
        \<and> now w' = now w \<and> statuses w' = statuses w"
    by blast
qed

text \<open>
  The conflicting record of the repository's test: with the default ten seconds of
  setup delay, \<open>setupDNS\<close> returns at ten seconds having polled nothing, and
  \<open>tearDownDNS\<close> ends the process at time 0.
\<close>

theorem submit_error_publish_vs_retract_witness:
  "(\<exists>w'. setupDNS Background (defaults\<lparr>ipAddress := ''1.2.3.4''\<rparr>)
         (boot\<lparr>changes := [Inl ''InvalidChangeBatch''], statuses := [Inr ''INSYNC'']\<rparr>)
         = Some (Returns () w')
       \<and> now w' = 10000000000 \<and> statuses w' = [Inr ''INSYNC''])
   \<and> (\<exists>w'. tearDownDNS Background (defaults\<lparr>ipAddress := ''1.2.3.4''\<rparr>)
         (boot\<lparr>changes := [Inl ''InvalidChangeBatch''], statuses := [Inr ''INSYNC'']\<rparr>)
         = Some (Exits (Fatal ''Failed to delete DNS, exiting: %v'') w')
       \<and> now w' = 0 \<and> statuses w' = [Inr ''INSYNC''])"
proof -
  let ?w = "boot\<lparr>changes := [Inl ''InvalidChangeBatch''], statuses := [Inr ''INSYNC'']\<rparr>"
  let ?g = "defaults\<lparr>ipAddress := ''1.2.3.4''\<rparr>"
  have c: "changes ?w = Inl ''InvalidChangeBatch'' # []" by simp
  have t: "now (world_of (the (setupDNS Background ?g ?w))) = 10000000000"
    by (simp add: setupDNS_def r53_ChangeResourceRecordSets_def Let_def time_Sleep_def
        defaults_def boot_def emit_def seconds_def word_sless_alt)
  from submit_error_publish_vs_retract [OF c, of Background ?g] t
  show ?thesis
    by (auto simp: boot_def)
qed

section \<open>Draining the TTL\<close>

lemma seconds_exact:
  assumes "0 \<le> sint n" "sint n \<le> 9223372036"
  shows "seconds n = sint n * 1000000000"
proof -
  have "seconds n = signed_take_bit 63 (sint n * 1000000000)"
    by (simp add: seconds_def sint_word_ariths)
  also have "\<dots> = sint n * 1000000000"
    using assms by (intro signed_take_bit_int_eq_self) simp_all
  finally show ?thesis .
qed

lemma tearDownDNS_returns:
  assumes "tearDownDNS ctx g w = Some (Returns u w')"
  shows "\<exists>evs l t. trace w' = trace w @ evs @ [(t, Log l),
            (t, Log ''Waiting for DNS Timeout to expire (%d seconds)''),
            (now w', Log ''DNS Timeout expiry finished'')]
        \<and> now w' = (if seconds (dnsTTL g) \<le> 0 then t else t + nat (seconds (dnsTTL g)))
        \<and> (l = ''Route53 Change Completed''
           \<or> l = ''Context cancelled, stop waiting for Route53 ChangeSet to propogate'')"
proof (cases "changes w")
  case Nil
  with assms show ?thesis by (simp add: tearDownDNS_def r53_ChangeResourceRecordSets_def)
next
  case (Cons x rest)
  define w1 where "w1 = (emit (CallChangeResourceRecordSets ctx (tearDownDNS_input g))
      (emit (Log ''Tearing down Route 53 DNS Name A %s => %s'') w))\<lparr>changes := rest\<rparr>"
  have sub: "r53_ChangeResourceRecordSets ctx (tearDownDNS_input g)
      (emit (Log ''Tearing down Route 53 DNS Name A %s => %s'') w) = Some (x, w1)"
    using Cons by (simp add: r53_ChangeResourceRecordSets_def w1_def)
  have w1: "trace w1 = trace w @ [(now w, Log ''Tearing down Route 53 DNS Name A %s => %s''),
      (now w, CallChangeResourceRecordSets ctx (tearDownDNS_input g))]"
    by (simp add: w1_def)
  show ?thesis
  proof (cases x)
    case (Inl err)
    with assms sub show ?thesis by (simp add: tearDownDNS_def)
  next
    case (Inr changeSet)
    let ?w2 = "emit (Log ''Request sent to Route 53...'') w1"
    show ?thesis
    proof (cases "waitForSync ctx changeSet ?w2")
      case None
      with assms sub Inr show ?thesis by (simp add: tearDownDNS_def)
    next
      case (Some r')
      show ?thesis
      proof (cases r')
        case (Exits e w3)
        with assms sub Inr Some show ?thesis by (simp add: tearDownDNS_def)
      next
        case (Returns u' w3)
        with assms sub Inr Some have r: "w' = emit (Log ''DNS Timeout expiry finished'')
                   (time_Sleep (seconds (dnsTTL g))
                     (emit (Log ''Waiting for DNS Timeout to expire (%d seconds)'') w3))"
          by (simp add: tearDownDNS_def)
        from waitForSync_returns [OF Some [unfolded Returns]] obtain evs l where
          "trace w3 = trace ?w2 @ evs @ [(now w3, Log l)]"
          "l = ''Route53 Change Completed''
            \<or> l = ''Context cancelled, stop waiting for Route53 ChangeSet to propogate''"
          by blast
        with w1 r show ?thesis
          by (intro exI [of _ "[(now w, Log ''Tearing down Route 53 DNS Name A %s => %s''),
              (now w, CallChangeResourceRecordSets ctx (tearDownDNS_input g)),
              (now w1, Log ''Request sent to Route 53...'')] @ evs"] exI [of _ l]
              exI [of _ "now w3"]) simp
      qed
    qed
  qed
qed




section \<open>Lemmas about configureFromFlags and main\<close>

lemma dumpConfig_simps [simp]:
  "trace (dumpConfig g w) = trace w @ [(now w, Log ''Version=%v''), (now w, Log ''DNS=%v''),
     (now w, Log ''DNSTTL=%v''), (now w, Log ''HOSTEDZONE=%v''), (now w, Log ''IPADDRESS=%v''),
     (now w, Log ''SETUPDELAY=%v'')]"
  "now (dumpConfig g w) = now w" "changes (dumpConfig g w) = changes w"
  "statuses (dumpConfig g w) = statuses w" "signal_at (dumpConfig g w) = signal_at w"
  "timer_first (dumpConfig g w) = timer_first w"
  by (simp_all add: dumpConfig_def)

lemma configureFromFlags_Returns:
  assumes "configureFromFlags flags w = Returns g w1"
  shows "(\<exists>evs. trace w1 = trace w @ evs \<and> requests evs = [] \<and> call_contexts evs = [])
    \<and> now w1 = now w \<and> changes w1 = changes w \<and> statuses w1 = statuses w
    \<and> signal_at w1 = signal_at w \<and> timer_first w1 = timer_first w
    \<and> (\<exists>ip. g = flags\<lparr>ipAddress := ip\<rparr>)"
  using assms
  by (auto simp: configureFromFlags_def Let_def
      split: option.splits if_splits sum.splits intro: exI [of _ "ipAddress flags"])

lemma configureFromFlags_Exits:
  assumes "configureFromFlags flags w = Exits e w1"
  shows "\<exists>evs. trace w1 = trace w @ evs \<and> requests evs = [] \<and> call_contexts evs = []"
  using assms
  by (auto simp: configureFromFlags_def Let_def split: option.splits if_splits sum.splits)

lemma main_Exits:
  "configureFromFlags flags w = Exits e w1 \<Longrightarrow> main flags w = Some (Exits e w1)"
  by (simp add: main_def)

lemma main_register:
  "configureFromFlags flags w = Returns g w1 \<Longrightarrow> register g \<Longrightarrow>
   main flags w = setupDNS (signal_at w) g (dumpConfig g w1)"
  by (simp add: main_def signal_NotifyContext_def Let_def)

lemma main_unRegister:
  "configureFromFlags flags w = Returns g w1 \<Longrightarrow> \<not> register g \<Longrightarrow> unRegister g \<Longrightarrow>
   main flags w = tearDownDNS (signal_at w) g (dumpConfig g w1)"
  by (simp add: main_def signal_NotifyContext_def Let_def)

lemma main_full:
  "configureFromFlags flags w = Returns g w1 \<Longrightarrow> \<not> register g \<Longrightarrow> \<not> unRegister g \<Longrightarrow>
   main flags w =
     (case setupDNS (signal_at w) g (dumpConfig g w1) of
        None \<Rightarrow> None
      | Some (Exits e w3) \<Rightarrow> Some (Exits e w3)
      | Some (Returns u w3) \<Rightarrow>
          (case signal_at w of
             None \<Rightarrow> None
           | Some c \<Rightarrow> tearDownDNS Background g (w3\<lparr>now := max (now w3) c\<rparr>)))"
  by (simp add: main_def signal_NotifyContext_def recv_Done_def Let_def
      split: option.splits res.splits)

lemma tearDownDNS_Background_frame:
  assumes "tearDownDNS Background g w = Some r"
  shows "\<exists>evs. trace (world_of r) = trace w
          @ (now w, Log ''Tearing down Route 53 DNS Name A %s => %s'') # evs
        \<and> requests evs = [tearDownDNS_input g]
        \<and> set (call_contexts evs) = {Background}
        \<and> ''Context cancelled, stop waiting for Route53 ChangeSet to propogate'' \<notin> set (logged evs)
        \<and> (\<not> exited r \<longrightarrow> ''Route53 Change Completed'' \<in> set (logged evs))"
proof -
  from tearDownDNS_frame [OF assms] obtain evs where
    "trace (world_of r) = trace w
          @ (now w, Log ''Tearing down Route 53 DNS Name A %s => %s'')
          # (now w, CallChangeResourceRecordSets Background (tearDownDNS_input g)) # evs"
    "requests evs = []" "set (call_contexts evs) \<subseteq> {Background}"
    "''Context cancelled, stop waiting for Route53 ChangeSet to propogate'' \<notin> set (logged evs)"
    "\<not> exited r \<longrightarrow> ''Route53 Change Completed'' \<in> set (logged evs)"
    by (auto simp: Background_def)
  then show ?thesis
    by (intro exI [of _ "(now w, CallChangeResourceRecordSets Background (tearDownDNS_input g)) # evs"])
       auto
qed

section \<open>The context of the teardown\<close>




section \<open>The order of the full lifecycle\<close>



section \<open>The change requests of a run\<close>

lemma main_requests:
  assumes "main flags w = Some r" and "configureFromFlags flags w = Returns g w1"
  shows "\<exists>evs. trace (world_of r) = trace w @ evs
      \<and> (if register g then requests evs = [setupDNS_input g]
         else if unRegister g then requests evs = [tearDownDNS_input g]
         else (requests evs = [setupDNS_input g] \<and> exited r)
            \<or> requests evs = [setupDNS_input g, tearDownDNS_input g])"
proof -
  from configureFromFlags_Returns [OF assms(2)] obtain evs0 where
    evs0: "trace w1 = trace w @ evs0" "requests evs0 = []" by blast
  let ?w2 = "dumpConfig g w1"
  have w2: "\<exists>evs. trace ?w2 = trace w @ evs \<and> requests evs = []"
    using evs0 by simp
  then obtain evs2 where evs2: "trace ?w2 = trace w @ evs2" "requests evs2 = []" by blast
  show ?thesis
  proof (cases "register g")
    case True
    with assms main_register [OF assms(2)] have "setupDNS (signal_at w) g ?w2 = Some r" by simp
    from setupDNS_frame [OF this] obtain evs where
      "trace (world_of r) = trace ?w2 @ evs" "requests evs = [setupDNS_input g]" by blast
    with evs2 True show ?thesis by (intro exI [of _ "evs2 @ evs"]) simp
  next
    case False
    note nr = False
    show ?thesis
    proof (cases "unRegister g")
      case True
      with assms main_unRegister [OF assms(2) nr]
      have "tearDownDNS (signal_at w) g ?w2 = Some r" by simp
      from tearDownDNS_frame [OF this] obtain evs where
        "trace (world_of r) = trace ?w2
          @ (now ?w2, Log ''Tearing down Route 53 DNS Name A %s => %s'')
          # (now ?w2, CallChangeResourceRecordSets (signal_at w) (tearDownDNS_input g)) # evs"
        "requests evs = []" by blast
      with evs2 True nr show ?thesis
        by (intro exI [of _ "evs2 @ (now ?w2, Log ''Tearing down Route 53 DNS Name A %s => %s'')
          # (now ?w2, CallChangeResourceRecordSets (signal_at w) (tearDownDNS_input g)) # evs"])
           simp
    next
      case False
      note mf = main_full [OF assms(2) nr False]
      show ?thesis
      proof (cases "setupDNS (signal_at w) g ?w2")
        case None
        with assms(1) mf show ?thesis by simp
      next
        case (Some r3)
        from setupDNS_frame [OF Some] obtain evs3 where
          evs3: "trace (world_of r3) = trace ?w2 @ evs3" "requests evs3 = [setupDNS_input g]"
          by blast
        show ?thesis
        proof (cases r3)
          case (Exits e w3)
          from mf Some Exits have "main flags w = Some (Exits e w3)" by simp
          with assms(1) have "r = Exits e w3" by simp
          with evs2 evs3 Exits nr False show ?thesis
            by (intro exI [of _ "evs2 @ evs3"]) simp
        next
          case (Returns u w3)
          show ?thesis
          proof (cases "signal_at w")
            case None
            from mf Some Returns None have "main flags w = None" by simp
            with assms(1) show ?thesis by simp
          next
            case (Some c)
            from mf \<open>setupDNS (signal_at w) g ?w2 = Some r3\<close> Returns Some
            have "main flags w = tearDownDNS Background g (w3\<lparr>now := max (now w3) c\<rparr>)"
              by simp
            with assms(1) have "tearDownDNS Background g (w3\<lparr>now := max (now w3) c\<rparr>) = Some r"
              by simp
            from tearDownDNS_Background_frame [OF this] obtain evs where
              "trace (world_of r) = trace w3
                @ (max (now w3) c, Log ''Tearing down Route 53 DNS Name A %s => %s'') # evs"
              "requests evs = [tearDownDNS_input g]" by auto
            with evs2 evs3 Returns nr False show ?thesis
              by (intro exI [of _ "evs2 @ evs3
                @ (max (now w3) c, Log ''Tearing down Route 53 DNS Name A %s => %s'') # evs"])
                 simp
          qed
        qed
      qed
    qed
  qed
qed

text \<open>
  C7. The requests \<open>setupDNS\<close> and \<open>tearDownDNS\<close> build from the globals \<open>g\<close>:
  the set identifier is the address, which is also the one resource record; the type
  is A and the weight 100; the first is an upsert and the second a delete of the same
  record set in the same hosted zone. And in every run of \<open>main\<close> that comes to an
  end after the flags were resolved to \<open>g\<close>, which differs from the flags in the
  address at most, the requests sent are built from that one \<open>g\<close>: the upsert alone
  in publish-only mode, the delete alone in retract-only mode, and in full lifecycle
  mode the upsert followed by the delete, or the upsert alone when the publish wait
  ended the process.
\<close>

theorem change_requests_consistent:
  "(SetIdentifier (RecordSet (setupDNS_input g)) = ipAddress g
      \<and> ResourceRecords (RecordSet (setupDNS_input g)) = [ipAddress g]
      \<and> Type (RecordSet (setupDNS_input g)) = RRTypeA
      \<and> Weight (RecordSet (setupDNS_input g)) = 100
      \<and> Name (RecordSet (setupDNS_input g)) = dns g
      \<and> TTL (RecordSet (setupDNS_input g)) = dnsTTL g
      \<and> HostedZoneId (setupDNS_input g) = hostedZone g
      \<and> Action (setupDNS_input g) = ChangeActionUpsert)
   \<and> (Action (tearDownDNS_input g) = ChangeActionDelete
      \<and> RecordSet (tearDownDNS_input g) = RecordSet (setupDNS_input g)
      \<and> HostedZoneId (tearDownDNS_input g) = HostedZoneId (setupDNS_input g))
   \<and> (\<forall>r g' w1. main flags w = Some r \<and> configureFromFlags flags w = Returns g' w1 \<longrightarrow>
        (\<exists>ip. g' = flags\<lparr>ipAddress := ip\<rparr>)
        \<and> (\<exists>evs. trace (world_of r) = trace w @ evs
            \<and> (if register g' then requests evs = [setupDNS_input g']
               else if unRegister g' then requests evs = [tearDownDNS_input g']
               else (requests evs = [setupDNS_input g'] \<and> exited r)
                  \<or> requests evs = [setupDNS_input g', tearDownDNS_input g'])))"
proof (intro conjI allI impI)
  fix r g' w1
  assume a: "main flags w = Some r \<and> configureFromFlags flags w = Returns g' w1"
  then have m: "main flags w = Some r" and c: "configureFromFlags flags w = Returns g' w1"
    by blast+
  from configureFromFlags_Returns [OF c] show "\<exists>ip. g' = flags\<lparr>ipAddress := ip\<rparr>" by blast
  from main_requests [OF m c]
  show "\<exists>evs. trace (world_of r) = trace w @ evs
            \<and> (if register g' then requests evs = [setupDNS_input g']
               else if unRegister g' then requests evs = [tearDownDNS_input g']
               else (requests evs = [setupDNS_input g'] \<and> exited r)
                  \<or> requests evs = [setupDNS_input g', tearDownDNS_input g'])" .
qed (simp_all add: setupDNS_input_def tearDownDNS_input_def)

text \<open>
  A full lifecycle on a container task: the address comes from the task metadata, the
  signal arrives at a minute, and the two requests of the run carry that address as
  value and as set identifier.
\<close>

theorem change_requests_consistent_witness:
  "\<exists>w'. main (defaults\<lparr>ipAddress := ''ecs''\<rparr>)
       (boot\<lparr>signal_at := Some 60000000000,
          ecsEndpoint := Inr \<lparr>DesiredStatus = ''RUNNING'',
            Networks = [\<lparr>IPv4Addresses = [''10.0.0.5'']\<rparr>]\<rparr>,
          changes := [Inr ''C7u'', Inr ''C7d''],
          statuses := [Inr ''INSYNC'', Inr ''INSYNC'']\<rparr>) = Some (Returns () w')
     \<and> requests (trace w')
         = [setupDNS_input (defaults\<lparr>ipAddress := ''10.0.0.5''\<rparr>),
            tearDownDNS_input (defaults\<lparr>ipAddress := ''10.0.0.5''\<rparr>)]
     \<and> map (SetIdentifier \<circ> RecordSet) (requests (trace w')) = [''10.0.0.5'', ''10.0.0.5'']
     \<and> map (ResourceRecords \<circ> RecordSet) (requests (trace w')) = [[''10.0.0.5''], [''10.0.0.5'']]"
proof -
  let ?f = "defaults\<lparr>ipAddress := ''ecs''\<rparr>"
  let ?g = "defaults\<lparr>ipAddress := ''10.0.0.5''\<rparr>"
  let ?w = "boot\<lparr>signal_at := Some 60000000000,
          ecsEndpoint := Inr \<lparr>DesiredStatus = ''RUNNING'',
            Networks = [\<lparr>IPv4Addresses = [''10.0.0.5'']\<rparr>]\<rparr>,
          changes := [Inr ''C7u'', Inr ''C7d''],
          statuses := [Inr ''INSYNC'', Inr ''INSYNC'']\<rparr>"
  have cfg: "configureFromFlags ?f ?w
      = Returns ?g (emit (Log ''Fetching IP Address from ECS metadata'') ?w)"
    by (simp add: configureFromFlags_def getEcsMetadata_def index_def defaults_def boot_def
        emit_def Let_def)
  obtain w' where m: "main ?f ?w = Some (Returns () w')"
    by (simp add: main_def configureFromFlags_def getEcsMetadata_def index_def
        signal_NotifyContext_def recv_Done_def dumpConfig_def
        setupDNS_def tearDownDNS_def waitForSync_def waitForSync_loop.simps
        SleepWithContext_def r53_ChangeResourceRecordSets_def r53_GetChange_def emit_def
        time_Sleep_def seconds_def Second_def defaults_def boot_def Background_def Let_def
        word_sless_alt)
  have mode: "\<not> register ?g" "\<not> unRegister ?g" by (simp_all add: defaults_def)
  from change_requests_consistent [of ?g ?f ?w, THEN conjunct2, THEN conjunct2, rule_format,
      OF conjI [OF m cfg]] mode
  obtain evs where evs: "trace w' = trace ?w @ evs"
    "requests evs = [setupDNS_input ?g, tearDownDNS_input ?g]"
    by auto
  have "trace ?w = []" by (simp add: boot_def)
  with evs have "requests (trace w') = [setupDNS_input ?g, tearDownDNS_input ?g]" by simp
  with m show ?thesis
    by (intro exI [of _ w']) (simp add: setupDNS_input_def tearDownDNS_input_def)
qed

section \<open>Both register and unregister\<close>

lemma configureFromFlags_unRegister:
  "configureFromFlags (flags\<lparr>unRegister := b\<rparr>) w =
     (case configureFromFlags flags w of
        Returns g w1 \<Rightarrow> Returns (g\<lparr>unRegister := b\<rparr>) w1
      | Exits e w1 \<Rightarrow> Exits e w1)"
  by (simp add: configureFromFlags_def Let_def split: option.splits sum.splits)

lemma setupDNS_unRegister:
  "setupDNS ctx (g\<lparr>unRegister := b\<rparr>) w = setupDNS ctx g w"
  by (simp add: setupDNS_def setupDNS_input_def Let_def)

lemma dumpConfig_unRegister:
  "dumpConfig (g\<lparr>unRegister := b\<rparr>) w = dumpConfig g w"
  by (simp add: dumpConfig_def)

lemma main_register_flag:
  assumes "register flags"
  shows "main flags w =
     (case configureFromFlags flags w of
        Returns g w1 \<Rightarrow> setupDNS (signal_at w) g (dumpConfig g w1)
      | Exits e w1 \<Rightarrow> Some (Exits e w1))"
proof (cases "configureFromFlags flags w")
  case (Returns g w1)
  from configureFromFlags_Returns [OF Returns] assms have "register g" by auto
  from main_register [OF Returns this] Returns show ?thesis by simp
next
  case (Exits e w1)
  from main_Exits [OF Exits] Exits show ?thesis by simp
qed

text \<open>
  C10. With both \<open>register\<close> and \<open>unregister\<close> set, \<open>main\<close> does what it does in
  publish-only mode: after the flags are resolved it is \<open>setupDNS\<close> and nothing
  else, it equals the run with \<open>unregister\<close> cleared, and a run that comes to an end
  has sent one request at most, and no delete.
\<close>

theorem register_takes_precedence:
  assumes "register flags" and "unRegister flags"
  shows "main flags w =
       (case configureFromFlags flags w of
          Returns g w1 \<Rightarrow> setupDNS (signal_at w) g (dumpConfig g w1)
        | Exits e w1 \<Rightarrow> Some (Exits e w1))
    \<and> main flags w = main (flags\<lparr>unRegister := False\<rparr>) w
    \<and> (\<forall>r. main flags w = Some r \<longrightarrow>
         (\<exists>evs. trace (world_of r) = trace w @ evs \<and> length (requests evs) \<le> 1
            \<and> ChangeActionDelete \<notin> set (map Action (requests evs))))"
proof (intro conjI allI impI)
  show m: "main flags w =
       (case configureFromFlags flags w of
          Returns g w1 \<Rightarrow> setupDNS (signal_at w) g (dumpConfig g w1)
        | Exits e w1 \<Rightarrow> Some (Exits e w1))"
    by (rule main_register_flag [OF assms(1)])
  have "register (flags\<lparr>unRegister := False\<rparr>)" using assms(1) by simp
  from main_register_flag [OF this, of w]
  show "main flags w = main (flags\<lparr>unRegister := False\<rparr>) w"
    unfolding m configureFromFlags_unRegister
    by (simp add: setupDNS_unRegister dumpConfig_unRegister split: res.splits)
  fix r
  assume r: "main flags w = Some r"
  show "\<exists>evs. trace (world_of r) = trace w @ evs \<and> length (requests evs) \<le> 1
            \<and> ChangeActionDelete \<notin> set (map Action (requests evs))"
  proof (cases "configureFromFlags flags w")
    case (Returns g w1)
    from configureFromFlags_Returns [OF Returns] assms have "register g" by auto
    with main_requests [OF r Returns] obtain evs where
      "trace (world_of r) = trace w @ evs" "requests evs = [setupDNS_input g]" by auto
    then show ?thesis
      by (intro exI [of _ evs]) (simp add: setupDNS_input_def)
  next
    case (Exits e w1)
    from main_Exits [OF Exits] r have "r = Exits e w1" by simp
    with configureFromFlags_Exits [OF Exits] show ?thesis by auto
  qed
qed

text \<open>
  Both flags set, the change in sync at the first poll: the run ends at fifteen
  seconds (ten of setup delay, five to the poll) and its only request is the upsert.
\<close>

theorem register_takes_precedence_witness:
  "\<exists>w'. main (defaults\<lparr>ipAddress := ''10.0.0.5'', register := True, unRegister := True\<rparr>)
       (boot\<lparr>changes := [Inr ''C10'', Inr ''C10d''], statuses := [Inr ''INSYNC'', Inr ''INSYNC'']\<rparr>)
       = Some (Returns () w')
     \<and> now w' = 15000000000
     \<and> map Action (requests (trace w')) = [ChangeActionUpsert]
     \<and> changes w' = [Inr ''C10d'']"
proof -
  let ?f = "defaults\<lparr>ipAddress := ''10.0.0.5'', register := True, unRegister := True\<rparr>"
  let ?w = "boot\<lparr>changes := [Inr ''C10'', Inr ''C10d''], statuses := [Inr ''INSYNC'', Inr ''INSYNC'']\<rparr>"
  have fl: "register ?f" "unRegister ?f" by simp_all
  have cfg: "configureFromFlags ?f ?w = Returns ?f ?w"
    by (simp add: configureFromFlags_def defaults_def boot_def)
  from register_takes_precedence [OF fl, of ?w, THEN conjunct1] cfg
  have m: "main ?f ?w = setupDNS (signal_at ?w) ?f (dumpConfig ?f ?w)" by simp
  have "\<exists>w'. setupDNS (signal_at ?w) ?f (dumpConfig ?f ?w) = Some (Returns () w')
     \<and> now w' = 15000000000
     \<and> map Action (requests (trace w')) = [ChangeActionUpsert]
     \<and> changes w' = [Inr ''C10d'']"
    by (simp add: setupDNS_def dumpConfig_def waitForSync_def waitForSync_loop.simps
        SleepWithContext_def r53_ChangeResourceRecordSets_def r53_GetChange_def emit_def
        time_Sleep_def seconds_def Second_def defaults_def boot_def Let_def word_sless_alt
        setupDNS_input_def)
  with m show ?thesis by simp
qed

section \<open>The address of a container task\<close>

lemma configureFromFlags_ecs:
  assumes "ipAddress flags = ''ecs''" and "awsConfig w = None" and "ecsEndpoint w = Inr m"
  shows "configureFromFlags flags w =
     (if Networks m = [] \<or> IPv4Addresses (hd (Networks m)) = []
      then Exits (Panic ''runtime error: index out of range [0] with length 0'')
             (emit (Log ''Fetching IP Address from ECS metadata'') w)
      else if DesiredStatus m = ''STOPPED''
      then Exits (Fatal ''ECS container is being stopped, exiting'')
             (emit (Log ''Fetching IP Address from ECS metadata'') w)
      else Returns (flags\<lparr>ipAddress := hd (IPv4Addresses (hd (Networks m)))\<rparr>)
             (emit (Log ''Fetching IP Address from ECS metadata'') w))"
  using assms
  by (simp add: configureFromFlags_def getEcsMetadata_def index_def Let_def emit_def
      hd_conv_nth)

text \<open>
  C4. Let the flag \<open>ipaddress\<close> be \<open>ecs\<close> and the task metadata document, fetched and
  decoded, say \<open>DesiredStatus = STOPPED\<close>. Then \<open>configureFromFlags\<close> ends the
  process, whatever the networks and addresses of the document are: with
  \<open>log.Fatalf\<close> when the first network has a first address, and by the run-time panic
  of the index expression when it has not. \<open>main\<close> ends there: the only thing it has
  done is to log that it fetches the address, and no request has gone to Route 53.
\<close>

theorem stopped_task_ends_process:
  assumes "ipAddress flags = ''ecs''" and "awsConfig w = None" and "ecsEndpoint w = Inr m"
    and "DesiredStatus m = ''STOPPED''"
  shows "\<exists>e. configureFromFlags flags w
          = Exits e (emit (Log ''Fetching IP Address from ECS metadata'') w)
      \<and> main flags w = Some (Exits e (emit (Log ''Fetching IP Address from ECS metadata'') w))
      \<and> e = (if Networks m = [] \<or> IPv4Addresses (hd (Networks m)) = []
             then Panic ''runtime error: index out of range [0] with length 0''
             else Fatal ''ECS container is being stopped, exiting'')
      \<and> requests (trace (emit (Log ''Fetching IP Address from ECS metadata'') w))
          = requests (trace w)
      \<and> changes (emit (Log ''Fetching IP Address from ECS metadata'') w) = changes w"
proof -
  note c = configureFromFlags_ecs [OF assms(1-3)]
  show ?thesis
  proof (cases "Networks m = [] \<or> IPv4Addresses (hd (Networks m)) = []")
    case True
    with c have "configureFromFlags flags w
        = Exits (Panic ''runtime error: index out of range [0] with length 0'')
            (emit (Log ''Fetching IP Address from ECS metadata'') w)" by simp
    with main_Exits [OF this] True show ?thesis by simp
  next
    case False
    with c assms(4) have "configureFromFlags flags w
        = Exits (Fatal ''ECS container is being stopped, exiting'')
            (emit (Log ''Fetching IP Address from ECS metadata'') w)" by simp
    with main_Exits [OF this] False show ?thesis by simp
  qed
qed

text \<open>A stopped task that still lists its address: the process ends with \<open>log.Fatalf\<close>.\<close>

theorem stopped_task_ends_process_witness:
  "main (defaults\<lparr>ipAddress := ''ecs''\<rparr>)
     (boot\<lparr>ecsEndpoint := Inr \<lparr>DesiredStatus = ''STOPPED'',
        Networks = [\<lparr>IPv4Addresses = [''10.0.0.5'']\<rparr>]\<rparr>,
        changes := [Inr ''C4''], statuses := [Inr ''INSYNC'']\<rparr>)
   = Some (Exits (Fatal ''ECS container is being stopped, exiting'')
       (boot\<lparr>ecsEndpoint := Inr \<lparr>DesiredStatus = ''STOPPED'',
          Networks = [\<lparr>IPv4Addresses = [''10.0.0.5'']\<rparr>]\<rparr>,
          changes := [Inr ''C4''], statuses := [Inr ''INSYNC''],
          trace := [(0, Log ''Fetching IP Address from ECS metadata'')]\<rparr>))"
proof -
  let ?m = "\<lparr>DesiredStatus = ''STOPPED'', Networks = [\<lparr>IPv4Addresses = [''10.0.0.5'']\<rparr>]\<rparr>"
  let ?w = "boot\<lparr>ecsEndpoint := Inr ?m, changes := [Inr ''C4''], statuses := [Inr ''INSYNC'']\<rparr>"
  have a: "ipAddress (defaults\<lparr>ipAddress := ''ecs''\<rparr>) = ''ecs''" "awsConfig ?w = None"
    "ecsEndpoint ?w = Inr ?m" "DesiredStatus ?m = ''STOPPED''"
    by (simp_all add: boot_def)
  from stopped_task_ends_process [OF a] show ?thesis
    by (simp add: emit_def boot_def)
qed

text \<open>
  C9. The index expression \<open>metadata.Networks[0].IPv4Addresses[0]\<close> comes before the
  check of \<open>DesiredStatus\<close> and is not guarded. For every document with no network,
  or with no address in its first network, one of the two indexings is out of range,
  and \<open>configureFromFlags\<close> ends the process by that panic, not by \<open>log.Fatalf\<close>,
  whatever \<open>DesiredStatus\<close> says: the check for \<open>STOPPED\<close> is not reached.
\<close>

theorem ecs_index_panics_before_status_check:
  assumes "ipAddress flags = ''ecs''" and "awsConfig w = None" and "ecsEndpoint w = Inr m"
    and "Networks m = [] \<or> IPv4Addresses (hd (Networks m)) = []"
  shows "configureFromFlags flags w
          = Exits (Panic ''runtime error: index out of range [0] with length 0'')
              (emit (Log ''Fetching IP Address from ECS metadata'') w)
      \<and> main flags w
          = Some (Exits (Panic ''runtime error: index out of range [0] with length 0'')
              (emit (Log ''Fetching IP Address from ECS metadata'') w))
      \<and> (index (Networks m) 0 = None
         \<or> (\<exists>net. index (Networks m) 0 = Some net \<and> index (IPv4Addresses net) 0 = None))"
proof -
  from configureFromFlags_ecs [OF assms(1-3)] assms(4)
  have c: "configureFromFlags flags w
          = Exits (Panic ''runtime error: index out of range [0] with length 0'')
              (emit (Log ''Fetching IP Address from ECS metadata'') w)" by simp
  from assms(4) have "index (Networks m) 0 = None
         \<or> (\<exists>net. index (Networks m) 0 = Some net \<and> index (IPv4Addresses net) 0 = None)"
    by (cases "Networks m") (auto simp: index_def)
  with c main_Exits [OF c] show ?thesis by simp
qed

text \<open>
  Two stopped tasks, one with no network and one whose network has no address: both
  end in the panic, neither in the message about the stopped container.
\<close>

theorem ecs_index_panics_before_status_check_witness:
  "configureFromFlags (defaults\<lparr>ipAddress := ''ecs''\<rparr>)
     (boot\<lparr>ecsEndpoint := Inr \<lparr>DesiredStatus = ''STOPPED'', Networks = []\<rparr>\<rparr>)
   = Exits (Panic ''runtime error: index out of range [0] with length 0'')
       (boot\<lparr>ecsEndpoint := Inr \<lparr>DesiredStatus = ''STOPPED'', Networks = []\<rparr>,
          trace := [(0, Log ''Fetching IP Address from ECS metadata'')]\<rparr>)
   \<and> configureFromFlags (defaults\<lparr>ipAddress := ''ecs''\<rparr>)
     (boot\<lparr>ecsEndpoint := Inr \<lparr>DesiredStatus = ''STOPPED'',
        Networks = [\<lparr>IPv4Addresses = []\<rparr>]\<rparr>\<rparr>)
   = Exits (Panic ''runtime error: index out of range [0] with length 0'')
       (boot\<lparr>ecsEndpoint := Inr \<lparr>DesiredStatus = ''STOPPED'',
          Networks = [\<lparr>IPv4Addresses = []\<rparr>]\<rparr>,
          trace := [(0, Log ''Fetching IP Address from ECS metadata'')]\<rparr>)"
proof -
  let ?f = "defaults\<lparr>ipAddress := ''ecs''\<rparr>"
  let ?m1 = "\<lparr>DesiredStatus = ''STOPPED'', Networks = []\<rparr>"
  let ?m2 = "\<lparr>DesiredStatus = ''STOPPED'', Networks = [\<lparr>IPv4Addresses = []\<rparr>]\<rparr>"
  have f: "ipAddress ?f = ''ecs''" by simp
  have a1: "awsConfig (boot\<lparr>ecsEndpoint := Inr ?m1\<rparr>) = None"
    "ecsEndpoint (boot\<lparr>ecsEndpoint := Inr ?m1\<rparr>) = Inr ?m1"
    "Networks ?m1 = [] \<or> IPv4Addresses (hd (Networks ?m1)) = []"
    by (simp_all add: boot_def)
  have a2: "awsConfig (boot\<lparr>ecsEndpoint := Inr ?m2\<rparr>) = None"
    "ecsEndpoint (boot\<lparr>ecsEndpoint := Inr ?m2\<rparr>) = Inr ?m2"
    "Networks ?m2 = [] \<or> IPv4Addresses (hd (Networks ?m2)) = []"
    by (simp_all add: boot_def)
  from ecs_index_panics_before_status_check [OF f a1]
    ecs_index_panics_before_status_check [OF f a2]
  show ?thesis
    by (simp add: emit_def boot_def)
qed

end
